theory Spec2Isabelle
  imports Complex_Main
begin

section \<open>Amen detection by chroma template matching\<close>

text \<open>
  A shallow embedding of \<^verbatim>\<open>scripts/detect_amen.py\<close> and of the timestamp parser of
  \<^verbatim>\<open>scripts/create_amen_template.py\<close>.

  Conventions of the embedding.
  \<^item> A Python \<^verbatim>\<open>float\<close> and a numpy \<^verbatim>\<open>float64\<close> are modelled by \<^typ>\<open>real\<close>:
    arithmetic is exact, there is no rounding, no infinity and no NaN. The constant
    \<^verbatim>\<open>1e-10\<close> is the real number \<open>1 / 10 ^ 10\<close>.
  \<^item> A Python \<^verbatim>\<open>int\<close> is an \<^typ>\<open>int\<close>; \<^verbatim>\<open>//\<close> and \<^verbatim>\<open>%\<close> are \<open>div\<close> and \<open>mod\<close>
    (both round towards minus infinity, in Python as in HOL).
  \<^item> A two-dimensional numpy array is the list of its rows, all of the same length.
  \<^item> An exception is a value \<open>Inl e\<close> of a sum type; a normal return is \<open>Inr v\<close>.
  \<^item> The external world (file system, ffprobe, ffmpeg, librosa) is a record of
    functions giving what each call returns; the calls made are logged as events.
\<close>

subsection \<open>Exceptions\<close>

datatype py_error =
    ValueError string
  | IndexError string
  | RuntimeError string
  | OSError string

subsection \<open>Timestamps\<close>

text \<open>\<^verbatim>\<open>int(secs)\<close> on a float: truncation towards zero.\<close>

definition py_int_of_float :: "real \<Rightarrow> int" where
  "py_int_of_float x = (if 0 \<le> x then \<lfloor>x\<rfloor> else \<lceil>x\<rceil>)"

definition digit_char :: "nat \<Rightarrow> char" where
  "digit_char d = char_of (48 + d)"

text \<open>\<^verbatim>\<open>str(n)\<close> for a non-negative integer: its decimal digits, most significant first.\<close>

function dec :: "nat \<Rightarrow> string" where
  "dec n = (if n < 10 then [digit_char n] else dec (n div 10) @ [digit_char (n mod 10)])"
  by pat_completeness auto
termination
  by (relation "measure id") auto

declare dec.simps [simp del]

definition zfill :: "nat \<Rightarrow> string \<Rightarrow> string" where
  "zfill w s = replicate (w - length s) (CHR ''0'') @ s"

text \<open>
  The format specification \<^verbatim>\<open>02d\<close>: decimal, zero-padded to width 2; the sign of a
  negative number counts in the width and precedes the padding.
\<close>

definition fmt_02d :: "int \<Rightarrow> string" where
  "fmt_02d i = (if i < 0 then CHR ''-'' # zfill 1 (dec (nat (- i))) else zfill 2 (dec (nat i)))"

definition seconds_to_timestamp :: "real \<Rightarrow> string" where
  "seconds_to_timestamp secs =
     (let h = py_int_of_float secs div 3600;
          m = (py_int_of_float secs mod 3600) div 60;
          s = py_int_of_float secs mod 60
      in fmt_02d h @ '':'' @ fmt_02d m @ '':'' @ fmt_02d s)"

text \<open>\<^verbatim>\<open>ts.split(c)\<close>: the pieces between the occurrences of the separator.\<close>

fun split_on :: "char \<Rightarrow> string \<Rightarrow> string list" where
  "split_on c [] = [[]]"
| "split_on c (x # xs) =
     (if x = c then [] # split_on c xs
      else (case split_on c xs of [] \<Rightarrow> [[x]] | p # ps \<Rightarrow> (x # p) # ps))"

text \<open>
  \<^verbatim>\<open>int(s)\<close> on a string (ASCII): surrounding white space is dropped, one sign is
  allowed, then decimal digits, where single underscores may stand between digits.
  Anything else raises \<^verbatim>\<open>ValueError\<close>.
\<close>

definition is_space :: "char \<Rightarrow> bool" where
  "is_space c = (of_char c \<in> set [9, 10, 11, 12, 13, 28, 29, 30, 31, 32 :: nat])"

definition is_digit :: "char \<Rightarrow> bool" where
  "is_digit c = (48 \<le> (of_char c :: nat) \<and> (of_char c :: nat) \<le> 57)"

definition digit_val :: "char \<Rightarrow> nat" where
  "digit_val c = of_char c - 48"

definition strip :: "string \<Rightarrow> string" where
  "strip s = rev (dropWhile is_space (rev (dropWhile is_space s)))"

fun digits_wf :: "string \<Rightarrow> bool" where
  "digits_wf [] = False"
| "digits_wf [c] = is_digit c"
| "digits_wf (c # d # cs) =
     (is_digit c \<and> (if d = CHR ''_'' then digits_wf cs else digits_wf (d # cs)))"

definition digits_value :: "string \<Rightarrow> nat" where
  "digits_value s = foldl (\<lambda>a c. 10 * a + digit_val c) 0 (filter (\<lambda>c. c \<noteq> CHR ''_'') s)"

definition py_int_of_str :: "string \<Rightarrow> py_error + int" where
  "py_int_of_str s =
     (let t = strip s;
          neg = (t \<noteq> [] \<and> hd t = CHR ''-'');
          body = (if t \<noteq> [] \<and> (hd t = CHR ''-'' \<or> hd t = CHR ''+'') then tl t else t)
      in if digits_wf body
         then Inr (if neg then - int (digits_value body) else int (digits_value body))
         else Inl (ValueError (''invalid literal for int() with base 10: '' @ s)))"

text \<open>
  Sequencing of calls that may raise: the first exception ends the computation.
\<close>

definition bind_err :: "'e + 'a \<Rightarrow> ('a \<Rightarrow> 'e + 'b) \<Rightarrow> 'e + 'b" where
  "bind_err m f = (case m of Inl e \<Rightarrow> Inl e | Inr v \<Rightarrow> f v)"

text \<open>\<^verbatim>\<open>parse_timestamp\<close> of \<^verbatim>\<open>create_amen_template.py\<close>.\<close>

definition parse_timestamp :: "string \<Rightarrow> py_error + int" where
  "parse_timestamp ts =
     (let parts = split_on (CHR '':'') ts in
      if length parts = 3 then
        bind_err (py_int_of_str (parts ! 0)) (\<lambda>a.
        bind_err (py_int_of_str (parts ! 1)) (\<lambda>b.
        bind_err (py_int_of_str (parts ! 2)) (\<lambda>c.
          Inr (a * 3600 + b * 60 + c))))
      else if length parts = 2 then
        bind_err (py_int_of_str (parts ! 0)) (\<lambda>a.
        bind_err (py_int_of_str (parts ! 1)) (\<lambda>b.
          Inr (a * 60 + b)))
      else Inl (ValueError (''Invalid timestamp format: '' @ ts)))"

subsection \<open>The matcher\<close>

type_synonym ndarray1 = "real list"
type_synonym ndarray2 = "real list list"

text \<open>\<^verbatim>\<open>a.shape[1]\<close>: the number of columns.\<close>

definition shape1 :: "ndarray2 \<Rightarrow> nat" where
  "shape1 a = (case a of [] \<Rightarrow> 0 | r # _ \<Rightarrow> length r)"

text \<open>\<^verbatim>\<open>a.mean()\<close> and \<^verbatim>\<open>a.std()\<close> over all entries (population standard deviation).\<close>

definition np_mean :: "ndarray2 \<Rightarrow> real" where
  "np_mean a = sum_list (concat a) / real (length (concat a))"

definition np_std :: "ndarray2 \<Rightarrow> real" where
  "np_std a =
     sqrt (sum_list (map (\<lambda>x. (x - np_mean a)\<^sup>2) (concat a)) / real (length (concat a)))"

text \<open>\<^verbatim>\<open>(a - a.mean()) / (a.std() + 1e-10)\<close>, entry by entry.\<close>

definition normalize :: "ndarray2 \<Rightarrow> ndarray2" where
  "normalize a = map (map (\<lambda>x. (x - np_mean a) / (np_std a + 1 / 10 ^ 10))) a"

text \<open>\<^verbatim>\<open>np.zeros(n)\<close>: a negative length raises.\<close>

definition np_zeros :: "int \<Rightarrow> py_error + ndarray1" where
  "np_zeros n =
     (if n < 0 then Inl (ValueError ''negative dimensions are not allowed'')
      else Inr (replicate (nat n) 0))"

definition dot :: "ndarray1 \<Rightarrow> ndarray1 \<Rightarrow> real" where
  "dot xs ys = sum_list (map2 (*) xs ys)"

text \<open>
  \<^verbatim>\<open>signal.correlate(in1, in2, mode='valid')\<close> on one-dimensional real arrays: entry
  \<open>k\<close> is the dot product of \<open>in2\<close> with the window of \<open>in1\<close> that starts at \<open>k\<close>.
  When \<open>in2\<close> is the longer array scipy swaps the roles of the two and the
  sequence comes out reversed. An empty array is refused.
\<close>

definition correlate_valid :: "ndarray1 \<Rightarrow> ndarray1 \<Rightarrow> py_error + ndarray1" where
  "correlate_valid in1 in2 =
     (if in1 = [] \<or> in2 = [] then Inl (ValueError ''cannot be empty'')
      else if length in2 \<le> length in1 then
        Inr (map (\<lambda>k. dot (take (length in2) (drop k in1)) in2)
               [0 ..< length in1 - length in2 + 1])
      else
        Inr (rev (map (\<lambda>k. dot (take (length in1) (drop k in2)) in1)
               [0 ..< length in2 - length in1 + 1])))"

text \<open>
  \<^verbatim>\<open>acc += corr\<close> on one-dimensional arrays: entry-wise sum; a one-entry right
  operand is broadcast; any other difference of lengths raises.
\<close>

definition np_iadd :: "ndarray1 \<Rightarrow> ndarray1 \<Rightarrow> py_error + ndarray1" where
  "np_iadd acc corr =
     (if length corr = length acc then Inr (map2 (+) acc corr)
      else if length corr = 1 then Inr (map (\<lambda>x. x + hd corr) acc)
      else Inl (ValueError ''operands could not be broadcast together''))"

text \<open>The loop \<^verbatim>\<open>for i in range(12)\<close> of \<^verbatim>\<open>match_template_chroma\<close>.\<close>

fun correlate_rows ::
  "ndarray2 \<Rightarrow> ndarray2 \<Rightarrow> nat list \<Rightarrow> ndarray1 \<Rightarrow> py_error + ndarray1" where
  "correlate_rows search_norm template_norm [] correlations = Inr correlations"
| "correlate_rows search_norm template_norm (i # is) correlations =
     (if length search_norm \<le> i \<or> length template_norm \<le> i
      then Inl (IndexError ''index is out of bounds for axis 0'')
      else
        bind_err (correlate_valid (search_norm ! i) (template_norm ! i)) (\<lambda>corr.
        bind_err (np_iadd correlations corr) (\<lambda>correlations'.
          correlate_rows search_norm template_norm is correlations')))"

text \<open>\<^verbatim>\<open>np.argmax\<close>: the index of the first occurrence of the maximum.\<close>

fun argmax_scan :: "ndarray1 \<Rightarrow> nat \<Rightarrow> nat \<Rightarrow> real \<Rightarrow> nat" where
  "argmax_scan [] i best_i best_v = best_i"
| "argmax_scan (x # xs) i best_i best_v =
     (if best_v < x then argmax_scan xs (Suc i) i x
      else argmax_scan xs (Suc i) best_i best_v)"

definition np_argmax :: "ndarray1 \<Rightarrow> py_error + nat" where
  "np_argmax xs =
     (case xs of
        [] \<Rightarrow> Inl (ValueError ''attempt to get argmax of an empty sequence'')
      | x # xs' \<Rightarrow> Inr (argmax_scan xs' 1 0 x))"

definition match_template_chroma :: "ndarray2 \<Rightarrow> ndarray2 \<Rightarrow> py_error + nat \<times> real" where
  "match_template_chroma template_chroma search_chroma =
     (let template_norm = normalize template_chroma;
          search_norm = normalize search_chroma
      in
        bind_err (np_zeros (int (shape1 search_chroma) - int (shape1 template_chroma) + 1))
          (\<lambda>zeros.
        bind_err (correlate_rows search_norm template_norm [0 ..< 12] zeros)
          (\<lambda>summed.
        let correlations = map (\<lambda>c. c / real (shape1 template_chroma)) summed in
        bind_err (np_argmax correlations)
          (\<lambda>best_idx. Inr (best_idx, correlations ! best_idx / 12)))))"

text \<open>
  The matcher as the design document words it, for a matrix of 12 rows: the global
  mean and the global standard deviation of a matrix, its normalized entries, and the
  aggregate correlation at offset \<open>k\<close>: the sum over the 12 rows of the dot product of
  the normalized template row with the window \<open>[k, k + M)\<close> of the normalized search
  row, divided by \<open>M\<close> and by 12.
\<close>

definition global_mean :: "ndarray2 \<Rightarrow> real" where
  "global_mean a = (\<Sum>i < 12. \<Sum>l < shape1 a. a ! i ! l) / (12 * real (shape1 a))"

definition global_std :: "ndarray2 \<Rightarrow> real" where
  "global_std a =
     sqrt ((\<Sum>i < 12. \<Sum>l < shape1 a. (a ! i ! l - global_mean a)\<^sup>2) / (12 * real (shape1 a)))"

definition normalized :: "ndarray2 \<Rightarrow> nat \<Rightarrow> nat \<Rightarrow> real" where
  "normalized a i l = (a ! i ! l - global_mean a) / (global_std a + 1 / 10 ^ 10)"

definition aggregate :: "ndarray2 \<Rightarrow> ndarray2 \<Rightarrow> nat \<Rightarrow> real" where
  "aggregate t s k =
     (\<Sum>i < 12. \<Sum>l < shape1 t. normalized t i l * normalized s i (k + l))
       / real (shape1 t) / 12"

text \<open>A chroma matrix: 12 rows of \<open>n\<close> frames each.\<close>

definition chroma :: "ndarray2 \<Rightarrow> nat \<Rightarrow> bool" where
  "chroma a n = (length a = 12 \<and> list_all (\<lambda>r. length r = n) a)"

definition scale :: "real \<Rightarrow> ndarray2 \<Rightarrow> ndarray2" where
  "scale c a = map (map (\<lambda>x. c * x)) a"

text \<open>
  Small chroma matrices for concrete runs: a one-frame template holding a major triad,
  a two-frame search matrix that repeats this frame, a one-frame matrix of two
  alternating levels, and a silent matrix of \<open>n\<close> frames.
\<close>

definition triad :: ndarray2 where
  "triad = [[1], [0], [0], [0], [1], [0], [0], [1], [0], [0], [0], [0]]"

definition triad_twice :: ndarray2 where
  "triad_twice =
     [[1, 1], [0, 0], [0, 0], [0, 0], [1, 1], [0, 0], [0, 0], [1, 1], [0, 0], [0, 0], [0, 0],
      [0, 0]]"

definition two_tone :: ndarray2 where
  "two_tone = [[2], [0], [2], [0], [2], [0], [2], [0], [2], [0], [2], [0]]"


subsection \<open>The detection pipeline\<close>

text \<open>
  The result dictionary of \<^verbatim>\<open>find_amen\<close> and \<^verbatim>\<open>main\<close>. The \<^verbatim>\<open>error\<close> strings are
  f-strings; each is kept as a constructor carrying the values it interpolates. The
  selectors \<open>out_error\<close>, \<open>out_best_score\<close> and \<open>out_best_time\<close> read the keys
  \<^verbatim>\<open>error\<close>, \<^verbatim>\<open>best_score\<close> and \<^verbatim>\<open>best_time\<close>; an absent key is \<open>None\<close>.
\<close>

datatype error_msg =
    MissingPackages "string list"
  | Usage
  | VideoNotFound string
  | TemplateNotFound string
  | DurationFailed py_error
  | VideoTooShort real int
  | ExtractFailed
  | BelowThreshold real real

datatype outcome =
    NotDetected (out_error: error_msg) (out_best_score: "real option")
      (out_best_time: "string option")
  | Detected (amen_start: string) (amen_start_seconds: int)
      (amen_end: string) (amen_end_seconds: int) (confidence: real)

text \<open>
  What \<^verbatim>\<open>subprocess.run\<close> gives for ffprobe: the return code, the error stream and
  the value of \<^verbatim>\<open>float(result.stdout.strip())\<close>, which may raise.
\<close>

record probe =
  returncode :: int
  stderr :: string
  stdout_float :: "py_error + real"

record world =
  numpy_available :: bool
  librosa_available :: bool
  scipy_available :: bool
  default_template_dir :: string
  path_exists :: "string \<Rightarrow> bool"
  np_load :: "string \<Rightarrow> py_error + ndarray2"
  run_ffprobe :: "string \<Rightarrow> py_error + probe"
  run_ffmpeg :: "string \<Rightarrow> real \<Rightarrow> real \<Rightarrow> py_error + int"
  librosa_chroma :: "string \<Rightarrow> real \<Rightarrow> real \<Rightarrow> py_error + ndarray2"

text \<open>The stages of the pipeline, logged in the order in which they are run.\<close>

datatype event =
    LoadTemplate string
  | ProbeDuration string
  | ExtractAudio string real real
  | ComputeChroma
  | MatchTemplate
  | RemoveTemp

definition check_dependencies :: "world \<Rightarrow> outcome option" where
  "check_dependencies w =
     (let missing = (if \<not> numpy_available w then [''numpy''] else [])
                  @ (if \<not> librosa_available w then [''librosa''] else [])
                  @ (if \<not> scipy_available w then [''scipy''] else [])
      in if missing \<noteq> [] then Some (NotDetected (MissingPackages missing) None None)
         else None)"

definition get_video_duration :: "world \<Rightarrow> string \<Rightarrow> py_error + real" where
  "get_video_duration w video_path =
     bind_err (run_ffprobe w video_path) (\<lambda>result.
       if returncode result \<noteq> 0
       then Inl (RuntimeError (''ffprobe failed: '' @ stderr result))
       else stdout_float result)"

definition extract_audio :: "world \<Rightarrow> string \<Rightarrow> real \<Rightarrow> real \<Rightarrow> py_error + bool" where
  "extract_audio w video_path start_sec duration_sec =
     bind_err (run_ffmpeg w video_path start_sec duration_sec) (\<lambda>rc. Inr (rc = 0))"

text \<open>
  \<^verbatim>\<open>compute_chroma\<close> on the clip that was extracted: the chromagram, the sample rate
  22050 that is passed to \<^verbatim>\<open>librosa.load\<close>, and the hop length, 512 by default.
\<close>

definition compute_chroma ::
  "world \<Rightarrow> string \<Rightarrow> real \<Rightarrow> real \<Rightarrow> py_error + ndarray2 \<times> nat \<times> nat" where
  "compute_chroma w video_path start_sec duration_sec =
     bind_err (librosa_chroma w video_path start_sec duration_sec) (\<lambda>c. Inr (c, 22050, 512))"

text \<open>\<^verbatim>\<open>os.path.join\<close> with a relative second component (POSIX).\<close>

definition path_join :: "string \<Rightarrow> string \<Rightarrow> string" where
  "path_join d f = (if d = [] \<or> last d = CHR ''/'' then d @ f else d @ ''/'' @ f)"

text \<open>
  Lines 202 to 225 of \<^verbatim>\<open>find_amen\<close>: frame index to time, end of the amen, the
  threshold, the result.
\<close>

definition localize ::
  "int \<Rightarrow> nat \<Rightarrow> real \<Rightarrow> nat \<Rightarrow> nat \<Rightarrow> nat \<Rightarrow> real \<Rightarrow> outcome" where
  "localize search_start best_idx best_score hop sr template_frames min_confidence =
     (let best_time_in_search = real best_idx * real hop / real sr;
          best_time_absolute = real_of_int search_start + best_time_in_search;
          template_duration = real template_frames * real hop / real sr;
          amen_end_absolute = best_time_absolute + template_duration
      in if best_score < min_confidence
         then NotDetected (BelowThreshold best_score min_confidence)
                (Some best_score) (Some (seconds_to_timestamp amen_end_absolute))
         else Detected (seconds_to_timestamp best_time_absolute)
                (py_int_of_float best_time_absolute)
                (seconds_to_timestamp amen_end_absolute)
                (py_int_of_float amen_end_absolute)
                best_score)"

text \<open>The body of the \<^verbatim>\<open>try\<close> block of \<^verbatim>\<open>find_amen\<close>.\<close>

definition search_region ::
  "world \<Rightarrow> string \<Rightarrow> ndarray2 \<Rightarrow> int \<Rightarrow> real \<Rightarrow> real
     \<Rightarrow> event list \<times> (py_error + outcome)" where
  "search_region w video_path template_chroma search_start search_duration min_confidence =
     (case extract_audio w video_path (real_of_int search_start) search_duration of
        Inl e \<Rightarrow> ([ExtractAudio video_path (real_of_int search_start) search_duration], Inl e)
      | Inr ok \<Rightarrow>
          if \<not> ok then
            ([ExtractAudio video_path (real_of_int search_start) search_duration],
             Inr (NotDetected ExtractFailed None None))
          else
            (case compute_chroma w video_path (real_of_int search_start) search_duration of
               Inl e \<Rightarrow>
                 ([ExtractAudio video_path (real_of_int search_start) search_duration,
                   ComputeChroma], Inl e)
             | Inr (search_chroma, sr, hop) \<Rightarrow>
                 ([ExtractAudio video_path (real_of_int search_start) search_duration,
                   ComputeChroma, MatchTemplate],
                  bind_err (match_template_chroma template_chroma search_chroma)
                    (\<lambda>(best_idx, best_score).
                       Inr (localize search_start best_idx best_score hop sr
                              (shape1 template_chroma) min_confidence)))))"

definition find_amen ::
  "world \<Rightarrow> string \<Rightarrow> int \<Rightarrow> int \<Rightarrow> string \<Rightarrow> real \<Rightarrow> event list \<times> (py_error + outcome)" where
  "find_amen w video_path start_offset_minutes search_duration_minutes template_dir
       min_confidence =
     (let template_path = path_join template_dir ''amen_chroma.npy'' in
      if \<not> path_exists w template_path
      then ([], Inr (NotDetected (TemplateNotFound template_path) None None))
      else
        (case np_load w template_path of
           Inl e \<Rightarrow> ([LoadTemplate template_path], Inl e)
         | Inr template_chroma \<Rightarrow>
             (case get_video_duration w video_path of
                Inl e \<Rightarrow>
                  ([LoadTemplate template_path, ProbeDuration video_path],
                   Inr (NotDetected (DurationFailed e) None None))
              | Inr video_duration \<Rightarrow>
                  (let search_start = start_offset_minutes * 60;
                       search_duration = min (real_of_int (search_duration_minutes * 60))
                                             (video_duration - real_of_int search_start)
                   in if search_duration \<le> 0
                      then ([LoadTemplate template_path, ProbeDuration video_path],
                            Inr (NotDetected (VideoTooShort video_duration search_start)
                                   None None))
                      else
                        (let (events, result) =
                               search_region w video_path template_chroma search_start
                                 search_duration min_confidence
                         in ([LoadTemplate template_path, ProbeDuration video_path]
                               @ events @ [RemoveTemp], result))))))"

text \<open>
  \<^verbatim>\<open>main\<close>: what is printed, the stages run, and how the process ends: an exit
  status, or an exception that nothing catches (\<open>Inl\<close>).
\<close>

datatype printed = PrintDoc | PrintResult outcome

definition main :: "world \<Rightarrow> string list \<Rightarrow> printed list \<times> event list \<times> (py_error + int)" where
  "main w argv =
     (if 1 < length argv \<and> (argv ! 1 = ''-h'' \<or> argv ! 1 = ''--help'')
      then ([PrintDoc], [], Inr 0)
      else if length argv < 2
      then ([PrintResult (NotDetected Usage None None)], [], Inr 1)
      else
        (case check_dependencies w of
           Some dep_error \<Rightarrow> ([PrintResult dep_error], [], Inr 1)
         | None \<Rightarrow>
             (let video_path = argv ! 1 in
              case (if 2 < length argv then py_int_of_str (argv ! 2) else Inr 20) of
                Inl e \<Rightarrow> ([], [], Inl e)
              | Inr start_offset_minutes \<Rightarrow>
                  (case (if 3 < length argv then py_int_of_str (argv ! 3) else Inr 90) of
                     Inl e \<Rightarrow> ([], [], Inl e)
                   | Inr search_duration_minutes \<Rightarrow>
                       (let template_dir =
                              (if 4 < length argv then argv ! 4 else default_template_dir w)
                        in if \<not> path_exists w video_path
                           then ([PrintResult (NotDetected (VideoNotFound video_path) None None)],
                                 [], Inr 1)
                           else
                             (case find_amen w video_path start_offset_minutes
                                     search_duration_minutes template_dir (1 / 2) of
                                (events, Inl e) \<Rightarrow> ([], events, Inl e)
                              | (events, Inr result) \<Rightarrow>
                                  ([PrintResult result], events, Inr 0)))))))"

text \<open>
  Worlds for concrete runs. In \<open>demo_world template search\<close> every file exists, the
  stored template is \<open>template\<close>, ffprobe reports 7200 seconds, ffmpeg succeeds and
  librosa computes \<open>search\<close> for the extracted clip. In \<open>corrupt_world\<close> the template
  file exists but \<^verbatim>\<open>np.load\<close> cannot read it.
\<close>

definition demo_world :: "ndarray2 \<Rightarrow> ndarray2 \<Rightarrow> world" where
  "demo_world template search =
     \<lparr> numpy_available = True, librosa_available = True, scipy_available = True,
       default_template_dir = ''config/audio_templates'',
       path_exists = (\<lambda>_. True),
       np_load = (\<lambda>_. Inr template),
       run_ffprobe = (\<lambda>_. Inr \<lparr> returncode = 0, stderr = [], stdout_float = Inr 7200 \<rparr>),
       run_ffmpeg = (\<lambda>_ _ _. Inr 0),
       librosa_chroma = (\<lambda>_ _ _. Inr search) \<rparr>"

definition corrupt_world :: world where
  "corrupt_world =
     (demo_world two_tone two_tone)
       \<lparr> np_load := (\<lambda>_. Inl (ValueError ''Cannot load file containing pickled data'')) \<rparr>"

section \<open>Properties\<close>

subsection \<open>Auxiliary facts about the matcher\<close>

lemma bind_err_simps [simp]:
  "bind_err (Inl e) f = Inl e"
  "bind_err (Inr v) f = f v"
  by (simp_all add: bind_err_def)

lemma chroma_shape1: "chroma a n \<Longrightarrow> shape1 a = n"
  by (cases a) (auto simp: chroma_def shape1_def)

lemma chroma_row: "chroma a n \<Longrightarrow> i < 12 \<Longrightarrow> length (a ! i) = n"
  by (simp add: chroma_def list_all_length)

lemma chroma_normalize: "chroma a n \<Longrightarrow> chroma (normalize a) n"
  by (simp add: chroma_def normalize_def list_all_length)

lemma correlate_valid_fits:
  assumes "in2 \<noteq> []" "length in2 \<le> length in1"
  shows "correlate_valid in1 in2 =
    Inr (map (\<lambda>k. dot (take (length in2) (drop k in1)) in2) [0 ..< length in1 - length in2 + 1])"
  using assms by (auto simp: correlate_valid_def)

lemma correlate_rows_sum:
  assumes "\<forall>i \<in> set is. i < length sn \<and> i < length tn \<and> length (tn ! i) = m \<and> length (sn ! i) = n"
    and "0 < m" and "m \<le> n" and "length acc = n - m + 1"
  shows "correlate_rows sn tn is acc =
     Inr (map (\<lambda>k. acc ! k + (\<Sum>i\<leftarrow>is. dot (take m (drop k (sn ! i))) (tn ! i))) [0 ..< n - m + 1])"
  using assms
proof (induction "is" arbitrary: acc)
  case Nil
  have "[0 ..< n - m + 1] = [0 ..< length acc]" using Nil.prems by simp
  then show ?case
    by (simp only: correlate_rows.simps list.map sum_list.Nil add_0_right map_nth)
next
  case (Cons i "is")
  have len: "length (tn ! i) = m" "length (sn ! i) = n" "i < length sn" "i < length tn"
    using Cons.prems(1) by auto
  have cv: "correlate_valid (sn ! i) (tn ! i) =
      Inr (map (\<lambda>k. dot (take m (drop k (sn ! i))) (tn ! i)) [0 ..< n - m + 1])"
    using correlate_valid_fits [of "tn ! i" "sn ! i"] len Cons.prems(2,3) by auto
  let ?acc' = "map2 (+) acc (map (\<lambda>k. dot (take m (drop k (sn ! i))) (tn ! i)) [0 ..< n - m + 1])"
  have ia: "np_iadd acc (map (\<lambda>k. dot (take m (drop k (sn ! i))) (tn ! i)) [0 ..< n - m + 1]) = Inr ?acc'"
    using Cons.prems(4) by (simp add: np_iadd_def)
  have la: "length ?acc' = n - m + 1" using Cons.prems(4) by simp
  have ih: "correlate_rows sn tn is ?acc' =
     Inr (map (\<lambda>k. ?acc' ! k + (\<Sum>i\<leftarrow>is. dot (take m (drop k (sn ! i))) (tn ! i))) [0 ..< n - m + 1])"
    using Cons.IH [OF _ Cons.prems(2,3) la] Cons.prems(1) by simp
  have "correlate_rows sn tn (i # is) acc = correlate_rows sn tn is ?acc'"
    using len cv ia by simp
  also have "\<dots> = Inr (map (\<lambda>k. acc ! k + (\<Sum>i\<leftarrow>i # is. dot (take m (drop k (sn ! i))) (tn ! i))) [0 ..< n - m + 1])"
    unfolding ih using Cons.prems(4) by (auto simp: add.assoc simp del: upt_Suc)
  finally show ?case .
qed

lemma argmax_scan_spec:
  assumes "length pre = i" "bi < i" "pre ! bi = bv"
    and "\<forall>j < i. pre ! j \<le> bv" and "\<forall>j < bi. pre ! j < bv"
  shows "argmax_scan xs i bi bv < length (pre @ xs)
       \<and> (\<forall>j < length (pre @ xs). (pre @ xs) ! j \<le> (pre @ xs) ! argmax_scan xs i bi bv)
       \<and> (\<forall>j < argmax_scan xs i bi bv. (pre @ xs) ! j < (pre @ xs) ! argmax_scan xs i bi bv)"
  using assms
proof (induction xs arbitrary: pre i bi bv)
  case Nil
  then show ?case by simp
next
  case (Cons x xs)
  show ?case
  proof (cases "bv < x")
    case True
    have "argmax_scan xs (Suc i) i x < length ((pre @ [x]) @ xs)
       \<and> (\<forall>j < length ((pre @ [x]) @ xs). ((pre @ [x]) @ xs) ! j \<le> ((pre @ [x]) @ xs) ! argmax_scan xs (Suc i) i x)
       \<and> (\<forall>j < argmax_scan xs (Suc i) i x. ((pre @ [x]) @ xs) ! j < ((pre @ [x]) @ xs) ! argmax_scan xs (Suc i) i x)"
    proof (rule Cons.IH)
      show "length (pre @ [x]) = Suc i" using Cons.prems by simp
      show "i < Suc i" by simp
      show "(pre @ [x]) ! i = x" using Cons.prems by (simp add: nth_append)
      show "\<forall>j<Suc i. (pre @ [x]) ! j \<le> x"
      proof (intro allI impI)
        fix j assume "j < Suc i"
        show "(pre @ [x]) ! j \<le> x"
        proof (cases "j < i")
          case True
          then have "pre ! j \<le> bv" using Cons.prems(4) by blast
          then show ?thesis using \<open>bv < x\<close> True Cons.prems(1) by (simp add: nth_append)
        next
          case False
          then have "j = i" using \<open>j < Suc i\<close> by simp
          then show ?thesis using Cons.prems(1) by (simp add: nth_append)
        qed
      qed
      show "\<forall>j<i. (pre @ [x]) ! j < x"
      proof (intro allI impI)
        fix j assume "j < i"
        then have "pre ! j \<le> bv" using Cons.prems(4) by blast
        then show "(pre @ [x]) ! j < x"
          using \<open>bv < x\<close> \<open>j < i\<close> Cons.prems(1) by (simp add: nth_append)
      qed
    qed
    then show ?thesis using True by simp
  next
    case False
    have "argmax_scan xs (Suc i) bi bv < length ((pre @ [x]) @ xs)
       \<and> (\<forall>j < length ((pre @ [x]) @ xs). ((pre @ [x]) @ xs) ! j \<le> ((pre @ [x]) @ xs) ! argmax_scan xs (Suc i) bi bv)
       \<and> (\<forall>j < argmax_scan xs (Suc i) bi bv. ((pre @ [x]) @ xs) ! j < ((pre @ [x]) @ xs) ! argmax_scan xs (Suc i) bi bv)"
    proof (rule Cons.IH)
      show "length (pre @ [x]) = Suc i" using Cons.prems by simp
      show "bi < Suc i" using Cons.prems by simp
      show "(pre @ [x]) ! bi = bv" using Cons.prems by (simp add: nth_append)
      show "\<forall>j<Suc i. (pre @ [x]) ! j \<le> bv" using Cons.prems False
        by (auto simp: nth_append less_Suc_eq)
      show "\<forall>j<bi. (pre @ [x]) ! j < bv" using Cons.prems
        by (auto simp: nth_append)
    qed
    then show ?thesis using False by simp
  qed
qed

lemma np_argmax_spec:
  assumes "xs \<noteq> []"
  shows "\<exists>k. np_argmax xs = Inr k \<and> k < length xs
       \<and> (\<forall>j < length xs. xs ! j \<le> xs ! k) \<and> (\<forall>j < k. xs ! j < xs ! k)"
proof -
  obtain x xs' where xs: "xs = x # xs'" using assms by (cases xs) auto
  have "argmax_scan xs' 1 0 x < length ([x] @ xs')
       \<and> (\<forall>j < length ([x] @ xs'). ([x] @ xs') ! j \<le> ([x] @ xs') ! argmax_scan xs' 1 0 x)
       \<and> (\<forall>j < argmax_scan xs' 1 0 x. ([x] @ xs') ! j < ([x] @ xs') ! argmax_scan xs' 1 0 x)"
    by (rule argmax_scan_spec) auto
  then show ?thesis by (simp add: xs np_argmax_def)
qed


lemma dot_window:
  assumes "length t = m" "k + m \<le> length s"
  shows "dot (take m (drop k s)) t = (\<Sum>l < m. t ! l * s ! (k + l))"
proof -
  have len: "length (zip (take m (drop k s)) t) = m" using assms by simp
  have "dot (take m (drop k s)) t = (\<Sum>l < m. map2 (*) (take m (drop k s)) t ! l)"
    unfolding dot_def using len
    by (metis (no_types, lifting) atLeast0LessThan length_map sum_list_sum_nth)
  also have "\<dots> = (\<Sum>l < m. t ! l * s ! (k + l))"
    using assms by (intro sum.cong) (auto simp: mult.commute)
  finally show ?thesis .
qed

lemma sum_list_rows:
  assumes "chroma a n"
  shows "sum_list (map f (concat a)) = (\<Sum>i < 12. \<Sum>l < n. f (a ! i ! l))"
proof -
  have "sum_list (map f (concat a)) = sum_list (map (\<lambda>r. sum_list (map f r)) a)"
    by (induction a) simp_all
  also have "\<dots> = (\<Sum>i < 12. sum_list (map f (a ! i)))"
    using assms by (simp add: sum_list_sum_nth chroma_def atLeast0LessThan)
  also have "\<dots> = (\<Sum>i < 12. \<Sum>l < n. f (a ! i ! l))"
  proof (rule sum.cong [OF refl])
    fix i :: nat assume "i \<in> {..<12}"
    then have "length (a ! i) = n" using chroma_row [OF assms] by simp
    then show "sum_list (map f (a ! i)) = (\<Sum>l < n. f (a ! i ! l))"
      by (simp add: sum_list_sum_nth atLeast0LessThan)
  qed
  finally show ?thesis .
qed

lemma length_concat_chroma: "chroma a n \<Longrightarrow> length (concat a) = 12 * n"
proof -
  assume a: "chroma a n"
  have "map length a = replicate 12 n"
    using a by (auto simp: chroma_def list_all_length intro!: nth_equalityI)
  then show ?thesis by (simp add: length_concat sum_list_replicate)
qed

lemma np_mean_global: "chroma a n \<Longrightarrow> np_mean a = global_mean a"
  using sum_list_rows [of a n "\<lambda>x. x"]
  by (simp add: np_mean_def global_mean_def length_concat_chroma chroma_shape1)

lemma np_std_global: "chroma a n \<Longrightarrow> np_std a = global_std a"
  using sum_list_rows [of a n "\<lambda>x. (x - global_mean a)\<^sup>2"]
  by (simp add: np_std_def global_std_def length_concat_chroma chroma_shape1 np_mean_global)

lemma normalize_nth:
  assumes "chroma a n" "i < 12" "l < n"
  shows "normalize a ! i ! l = normalized a i l"
  using assms chroma_row [OF assms(1,2)]
  by (simp add: normalize_def normalized_def chroma_def np_mean_global [OF assms(1)]
      np_std_global [OF assms(1)])

lemma aggregate_dot:
  assumes "chroma t m" "chroma s n" "k + m \<le> n"
  shows "(\<Sum>i\<leftarrow>[0 ..< 12]. dot (take m (drop k (normalize s ! i))) (normalize t ! i)) / real m / 12
     = aggregate t s k"
proof -
  have "(\<Sum>i\<leftarrow>[0 ..< 12]. dot (take m (drop k (normalize s ! i))) (normalize t ! i))
      = (\<Sum>i < 12. dot (take m (drop k (normalize s ! i))) (normalize t ! i))"
    by (simp add: sum_list_sum_nth atLeast0LessThan del: upt_Suc)
  also have "\<dots> = (\<Sum>i < 12. \<Sum>l < m. normalized t i l * normalized s i (k + l))"
  proof (rule sum.cong [OF refl])
    fix i :: nat assume "i \<in> {..<12}"
    then have i: "i < 12" by simp
    have "dot (take m (drop k (normalize s ! i))) (normalize t ! i)
        = (\<Sum>l < m. normalize t ! i ! l * normalize s ! i ! (k + l))"
      using chroma_row [OF chroma_normalize [OF assms(1)] i]
        chroma_row [OF chroma_normalize [OF assms(2)] i] assms(3)
      by (intro dot_window) auto
    also have "\<dots> = (\<Sum>l < m. normalized t i l * normalized s i (k + l))"
      using assms(3) by (intro sum.cong) (auto simp: normalize_nth [OF assms(1) i] normalize_nth [OF assms(2) i])
    finally show "dot (take m (drop k (normalize s ! i))) (normalize t ! i)
        = (\<Sum>l < m. normalized t i l * normalized s i (k + l))" .
  qed
  finally show ?thesis by (simp add: aggregate_def chroma_shape1 [OF assms(1)])
qed

lemma match_template_chroma_fits:
  assumes "chroma t m" "chroma s n" "0 < m" "m \<le> n"
  shows "\<exists>k. match_template_chroma t s = Inr (k, aggregate t s k) \<and> k \<le> n - m
       \<and> (\<forall>j \<le> n - m. aggregate t s j \<le> aggregate t s k)
       \<and> (\<forall>j < k. aggregate t s j < aggregate t s k)"
proof -
  let ?tn = "normalize t" and ?sn = "normalize s"
  let ?summed = "map (\<lambda>k. (\<Sum>i\<leftarrow>[0 ..< 12]. dot (take m (drop k (?sn ! i))) (?tn ! i))) [0 ..< n - m + 1]"
  let ?corr = "map (\<lambda>c. c / real m) ?summed"
  have tn: "chroma ?tn m" and sn: "chroma ?sn n"
    using assms chroma_normalize by auto
  have zeros: "np_zeros (int (shape1 s) - int (shape1 t) + 1) = Inr (replicate (n - m + 1) 0)"
    using assms by (simp add: np_zeros_def chroma_shape1 nat_diff_distrib' nat_add_distrib of_nat_diff)
  have rows: "\<forall>i \<in> set [0 ..< 12]. i < length ?sn \<and> i < length ?tn
                \<and> length (?tn ! i) = m \<and> length (?sn ! i) = n"
    using chroma_row [OF tn] chroma_row [OF sn] tn sn by (auto simp: chroma_def)
  have "correlate_rows ?sn ?tn [0 ..< 12] (replicate (n - m + 1) 0) =
      Inr (map (\<lambda>k. replicate (n - m + 1) 0 ! k
             + (\<Sum>i\<leftarrow>[0 ..< 12]. dot (take m (drop k (?sn ! i))) (?tn ! i))) [0 ..< n - m + 1])"
    by (rule correlate_rows_sum [OF rows assms(3,4)]) simp
  also have "\<dots> = Inr ?summed"
    by (auto simp del: upt_Suc replicate_Suc)
  finally have summed: "correlate_rows ?sn ?tn [0 ..< 12] (replicate (n - m + 1) 0) = Inr ?summed" .
  have ne: "?corr \<noteq> []" by simp
  obtain k where k: "np_argmax ?corr = Inr k" "k < length ?corr"
      "\<forall>j < length ?corr. ?corr ! j \<le> ?corr ! k" "\<forall>j < k. ?corr ! j < ?corr ! k"
    using np_argmax_spec [OF ne] by blast
  have kle: "k \<le> n - m" using k(2) by simp
  have agg: "?corr ! j / 12 = aggregate t s j" if "j \<le> n - m" for j
  proof -
    have "j < n - m + 1" using that by simp
    then have "?corr ! j = (\<Sum>i\<leftarrow>[0 ..< 12]. dot (take m (drop j (?sn ! i))) (?tn ! i)) / real m"
      by (simp del: upt_Suc)
    moreover have "j + m \<le> n" using that assms(4) by simp
    ultimately show ?thesis using aggregate_dot [OF assms(1,2)] by simp
  qed
  have res: "match_template_chroma t s = Inr (k, aggregate t s k)"
    unfolding match_template_chroma_def Let_def zeros
    using summed k(1) agg [OF kle] chroma_shape1 [OF assms(1)]
    by (simp del: upt_Suc)
  have mx: "aggregate t s j \<le> aggregate t s k" if "j \<le> n - m" for j
  proof -
    have "?corr ! j \<le> ?corr ! k" using k(3) that by simp
    then have "?corr ! j / 12 \<le> ?corr ! k / 12" by simp
    then show ?thesis using agg [OF that] agg [OF kle] by simp
  qed
  have fst: "aggregate t s j < aggregate t s k" if "j < k" for j
  proof -
    have jle: "j \<le> n - m" using that kle by simp
    have "?corr ! j < ?corr ! k" using k(4) that by simp
    then have "?corr ! j / 12 < ?corr ! k / 12" by simp
    then show ?thesis using agg [OF jle] agg [OF kle] by simp
  qed
  show ?thesis using res kle mx fst by blast
qed

lemma chroma_triad: "chroma triad 1" "chroma triad_twice 2"
  by (simp_all add: chroma_def triad_def triad_twice_def)


lemma chroma_two_tone: "chroma two_tone 1"
  by (simp add: chroma_def two_tone_def)

lemma sum_12:
  fixes f :: "nat \<Rightarrow> real"
  shows "(\<Sum>i < 12. f i)
     = f 0 + f 1 + f 2 + f 3 + f 4 + f 5 + f 6 + f 7 + f 8 + f 9 + f 10 + f 11"
  by (simp add: eval_nat_numeral lessThan_Suc add.assoc)

lemma two_tone_mean: "global_mean two_tone = 1"
  by (simp add: global_mean_def chroma_shape1 [OF chroma_two_tone] sum_12) (simp add: two_tone_def)

lemma two_tone_std: "global_std two_tone = 1"
  by (simp add: global_std_def two_tone_mean chroma_shape1 [OF chroma_two_tone] sum_12) (simp add: two_tone_def)

lemma two_tone_aggregate: "aggregate two_tone two_tone 0 = 1 / (1 + 1 / 10 ^ 10)\<^sup>2"
  by (simp add: aggregate_def normalized_def two_tone_mean two_tone_std chroma_shape1 [OF chroma_two_tone] sum_12)
   (simp add: two_tone_def power2_eq_square)

lemma two_tone_match: "match_template_chroma two_tone two_tone = Inr (0, 1 / (1 + 1 / 10 ^ 10)\<^sup>2)"
  using match_template_chroma_fits [OF chroma_two_tone chroma_two_tone] two_tone_aggregate by auto


subsection \<open>The matcher computes the maximum of the aggregate correlation\<close>

text \<open>
  C1. For a template of 12 rows and \<open>m\<close> frames and a search matrix of 12 rows and
  \<open>n\<close> frames, with \<open>1 \<le> m \<le> n\<close>, \<^const>\<open>match_template_chroma\<close> returns an offset \<open>k\<close>
  in \<open>[0, n - m]\<close> and a score; the score is the aggregate correlation at \<open>k\<close>
  (matrices normalized by their global mean and their global standard deviation plus
  \<open>1e-10\<close>; sum over the 12 rows of the dot products of the template rows with the
  search windows at \<open>k\<close>; divided by \<open>m\<close> and by 12), and no offset of \<open>[0, n - m]\<close> has
  a larger aggregate correlation.
\<close>

theorem match_template_chroma_maximum:
  assumes "chroma t m" and "chroma s n" and "0 < m" and "m \<le> n"
  shows "\<exists>k. match_template_chroma t s = Inr (k, aggregate t s k) \<and> k \<le> n - m
       \<and> (\<forall>j \<le> n - m. aggregate t s j \<le> aggregate t s k)"
  using match_template_chroma_fits [OF assms] by blast

theorem match_template_chroma_maximum_witness:
  "match_template_chroma two_tone two_tone = Inr (0, 1 / (1 + 1 / 10 ^ 10)\<^sup>2)"
  using match_template_chroma_maximum [OF chroma_two_tone chroma_two_tone] two_tone_aggregate
  by auto



subsection \<open>A template longer than the search matrix\<close>

lemma correlate_valid_swapped:
  assumes "in1 \<noteq> []" and "length in1 < length in2"
  shows "\<exists>c. correlate_valid in1 in2 = Inr c \<and> length c = length in2 - length in1 + 1"
proof -
  have "in2 \<noteq> []" using assms(2) by auto
  then show ?thesis using assms by (simp add: correlate_valid_def)
qed

lemma match_template_chroma_short:
  assumes "chroma t m" and "chroma s n" and "n < m"
  shows "match_template_chroma t s =
     Inl (ValueError (if n + 1 < m then ''negative dimensions are not allowed''
                      else if n = 0 then ''cannot be empty''
                      else ''operands could not be broadcast together''))"
proof (cases "n + 1 < m")
  case True
  then have "np_zeros (int (shape1 s) - int (shape1 t) + 1)
      = Inl (ValueError ''negative dimensions are not allowed'')"
    using assms by (simp add: np_zeros_def chroma_shape1)
  then show ?thesis using True by (simp add: match_template_chroma_def)
next
  case False
  then have m: "m = n + 1" using assms(3) by simp
  have zeros: "np_zeros (int (shape1 s) - int (shape1 t) + 1) = Inr []"
    using assms m by (simp add: np_zeros_def chroma_shape1)
  have tn: "chroma (normalize t) m" and sn: "chroma (normalize s) n"
    using assms chroma_normalize by auto
  have len: "length (normalize s ! 0) = n" "length (normalize t ! 0) = m"
    using chroma_row [OF sn, of 0] chroma_row [OF tn, of 0] by simp_all
  have rows: "\<not> (length (normalize s) \<le> 0 \<or> length (normalize t) \<le> 0)"
    using tn sn by (simp add: chroma_def)
  have split: "[0 ..< 12] = 0 # [1 ..< 12]" by (simp add: upt_rec)
  show ?thesis
  proof (cases "n = 0")
    case True
    then have "correlate_valid (normalize s ! 0) (normalize t ! 0)
        = Inl (ValueError ''cannot be empty'')"
      using len by (simp add: correlate_valid_def)
    then have "correlate_rows (normalize s) (normalize t) [0 ..< 12] []
        = Inl (ValueError ''cannot be empty'')"
      unfolding split using rows by simp
    then show ?thesis using zeros True m by (simp add: match_template_chroma_def)
  next
    case False
    then obtain c where c: "correlate_valid (normalize s ! 0) (normalize t ! 0) = Inr c"
        "length c = 2"
      using correlate_valid_swapped [of "normalize s ! 0" "normalize t ! 0"] len m by auto
    have "np_iadd [] c = Inl (ValueError ''operands could not be broadcast together'')"
      using c(2) by (simp add: np_iadd_def)
    then have "correlate_rows (normalize s) (normalize t) [0 ..< 12] []
        = Inl (ValueError ''operands could not be broadcast together'')"
      unfolding split using rows c(1) by simp
    then show ?thesis using zeros False m by (simp add: match_template_chroma_def)
  qed
qed




subsection \<open>Scaling an input of the matcher\<close>

lemma chroma_scale: "chroma a n \<Longrightarrow> chroma (scale c a) n"
  by (simp add: chroma_def scale_def list_all_length)

lemma scale_nth:
  assumes "chroma a n" "i < 12" "l < n"
  shows "scale c a ! i ! l = c * a ! i ! l"
  using assms chroma_row [OF assms(1,2)] by (simp add: scale_def chroma_def)

lemma global_mean_scale:
  assumes "chroma a n"
  shows "global_mean (scale c a) = c * global_mean a"
proof -
  have "(\<Sum>i < 12. \<Sum>l < n. scale c a ! i ! l) = (\<Sum>i < 12. \<Sum>l < n. c * a ! i ! l)"
    by (intro sum.cong refl) (simp add: scale_nth [OF assms])
  also have "\<dots> = c * (\<Sum>i < 12. \<Sum>l < n. a ! i ! l)"
    by (simp add: sum_distrib_left)
  finally show ?thesis
    by (simp add: global_mean_def chroma_shape1 [OF assms] chroma_shape1 [OF chroma_scale [OF assms]])
qed

lemma global_std_nonneg: "0 \<le> global_std a"
  unfolding global_std_def
  by (intro real_sqrt_ge_zero divide_nonneg_nonneg sum_nonneg) simp_all

lemma global_std_scale:
  assumes "chroma a n" and "0 \<le> c"
  shows "global_std (scale c a) = c * global_std a"
proof -
  have sq: "sqrt (c\<^sup>2 * x) = c * sqrt x" for x
    using assms(2) by (simp add: real_sqrt_mult)
  have "(\<Sum>i < 12. \<Sum>l < n. (scale c a ! i ! l - global_mean (scale c a))\<^sup>2)
      = (\<Sum>i < 12. \<Sum>l < n. c\<^sup>2 * (a ! i ! l - global_mean a)\<^sup>2)"
    by (intro sum.cong refl)
      (simp add: scale_nth [OF assms(1)] global_mean_scale [OF assms(1)]
        right_diff_distrib [symmetric] power_mult_distrib)
  also have "\<dots> = c\<^sup>2 * (\<Sum>i < 12. \<Sum>l < n. (a ! i ! l - global_mean a)\<^sup>2)"
    by (simp add: sum_distrib_left)
  finally have "global_std (scale c a)
      = sqrt (c\<^sup>2 * ((\<Sum>i < 12. \<Sum>l < n. (a ! i ! l - global_mean a)\<^sup>2) / (12 * real n)))"
    by (simp add: global_std_def chroma_shape1 [OF assms(1)]
        chroma_shape1 [OF chroma_scale [OF assms(1)]])
  also have "\<dots> = c * global_std a"
    unfolding sq by (simp add: global_std_def chroma_shape1 [OF assms(1)])
  finally show ?thesis .
qed

lemma normalized_scale:
  assumes "chroma a n" "i < 12" "l < n" "0 < c"
  shows "normalized (scale c a) i l
     = c * (global_std a + 1 / 10 ^ 10) / (c * global_std a + 1 / 10 ^ 10) * normalized a i l"
proof -
  have pos: "0 < global_std a + 1 / 10 ^ 10"
    using global_std_nonneg [of a] by (simp add: add_nonneg_pos)
  have "normalized (scale c a) i l
      = c * (a ! i ! l - global_mean a) / (c * global_std a + 1 / 10 ^ 10)"
    using assms
    by (simp add: normalized_def scale_nth [OF assms(1,2,3)] global_mean_scale [OF assms(1)]
        global_std_scale [OF assms(1)] right_diff_distrib)
  also have "\<dots> = c * (global_std a + 1 / 10 ^ 10) / (c * global_std a + 1 / 10 ^ 10)
       * ((a ! i ! l - global_mean a) / (global_std a + 1 / 10 ^ 10))"
    using pos by simp
  finally show ?thesis by (simp add: normalized_def)
qed

lemma aggregate_scale_search:
  assumes "chroma t m" "chroma s n" "k + m \<le> n" "0 < c"
  shows "aggregate t (scale c s) k
     = c * (global_std s + 1 / 10 ^ 10) / (c * global_std s + 1 / 10 ^ 10) * aggregate t s k"
proof -
  let ?f = "c * (global_std s + 1 / 10 ^ 10) / (c * global_std s + 1 / 10 ^ 10)"
  have "(\<Sum>i < 12. \<Sum>l < m. normalized t i l * normalized (scale c s) i (k + l))
      = (\<Sum>i < 12. \<Sum>l < m. ?f * (normalized t i l * normalized s i (k + l)))"
    using assms(3)
    by (intro sum.cong refl) (simp add: normalized_scale [OF assms(2) _ _ assms(4)])
  also have "\<dots> = ?f * (\<Sum>i < 12. \<Sum>l < m. normalized t i l * normalized s i (k + l))"
    by (simp add: sum_distrib_left)
  finally show ?thesis
    by (simp add: aggregate_def chroma_shape1 [OF assms(1)])
qed

lemma aggregate_scale_template:
  assumes "chroma t m" "0 < c"
  shows "aggregate (scale c t) s k
     = c * (global_std t + 1 / 10 ^ 10) / (c * global_std t + 1 / 10 ^ 10) * aggregate t s k"
proof -
  let ?f = "c * (global_std t + 1 / 10 ^ 10) / (c * global_std t + 1 / 10 ^ 10)"
  have "(\<Sum>i < 12. \<Sum>l < m. normalized (scale c t) i l * normalized s i (k + l))
      = (\<Sum>i < 12. \<Sum>l < m. ?f * (normalized t i l * normalized s i (k + l)))"
    by (intro sum.cong refl) (simp add: normalized_scale [OF assms(1) _ _ assms(2)])
  also have "\<dots> = ?f * (\<Sum>i < 12. \<Sum>l < m. normalized t i l * normalized s i (k + l))"
    by (simp add: sum_distrib_left)
  finally show ?thesis
    by (simp add: aggregate_def chroma_shape1 [OF assms(1)]
        chroma_shape1 [OF chroma_scale [OF assms(1)]])
qed

lemma rescale_factor_pos:
  assumes "0 < c" shows "0 < c * (global_std a + 1 / 10 ^ 10) / (c * global_std a + 1 / 10 ^ 10)"
proof -
  have "0 < global_std a + 1 / 10 ^ 10" "0 < c * global_std a + 1 / 10 ^ 10"
    using global_std_nonneg [of a] assms by (simp_all add: add_nonneg_pos)
  then show ?thesis using assms by simp
qed

lemma match_template_chroma_rescaled:
  assumes "chroma t m" "chroma s n" "chroma t' m" "chroma s' n" "0 < m" "m \<le> n" "0 < f"
    and agg: "\<And>j. j \<le> n - m \<Longrightarrow> aggregate t' s' j = f * aggregate t s j"
    and res: "match_template_chroma t s = Inr (k, sc)"
  shows "match_template_chroma t' s' = Inr (k, f * sc)"
proof -
  obtain k0 where k0: "match_template_chroma t s = Inr (k0, aggregate t s k0)" "k0 \<le> n - m"
      "\<forall>j \<le> n - m. aggregate t s j \<le> aggregate t s k0"
      "\<forall>j < k0. aggregate t s j < aggregate t s k0"
    using match_template_chroma_fits [OF assms(1,2,5,6)] by blast
  obtain k1 where k1: "match_template_chroma t' s' = Inr (k1, aggregate t' s' k1)" "k1 \<le> n - m"
      "\<forall>j \<le> n - m. aggregate t' s' j \<le> aggregate t' s' k1"
      "\<forall>j < k1. aggregate t' s' j < aggregate t' s' k1"
    using match_template_chroma_fits [OF assms(3,4,5,6)] by blast
  have eq: "k = k0" "sc = aggregate t s k0" using res k0(1) by auto
  have "\<not> k0 < k1"
  proof
    assume "k0 < k1"
    then have "aggregate t' s' k0 < aggregate t' s' k1"
      using k1(4) by blast
    then have "f * aggregate t s k0 < f * aggregate t s k1"
      using agg [OF k0(2)] agg [OF k1(2)] by simp
    then have "aggregate t s k0 < aggregate t s k1" using \<open>0 < f\<close> by simp
    then show False using k0(3) k1(2) by (simp add: not_less [symmetric])
  qed
  moreover have "\<not> k1 < k0"
  proof
    assume "k1 < k0"
    then have "aggregate t s k1 < aggregate t s k0" using k0(4) by simp
    then have "f * aggregate t s k1 < f * aggregate t s k0" using \<open>0 < f\<close> by simp
    then have "aggregate t' s' k1 < aggregate t' s' k0"
      using agg [OF k0(2)] agg [OF k1(2)] by simp
    then show False using k1(3) k0(2) by (simp add: not_less [symmetric])
  qed
  ultimately have "k1 = k0" by simp
  then show ?thesis using k1(1) agg [OF k0(2)] eq by simp
qed

lemma match_template_chroma_scaled:
  assumes "chroma t m" and "chroma s n" and "0 < m" and "m \<le> n" and "0 < c"
    and "match_template_chroma t s = Inr (k, sc)"
  shows "match_template_chroma t (scale c s)
         = Inr (k, c * (global_std s + 1 / 10 ^ 10) / (c * global_std s + 1 / 10 ^ 10) * sc)"
    and "match_template_chroma (scale c t) s
         = Inr (k, c * (global_std t + 1 / 10 ^ 10) / (c * global_std t + 1 / 10 ^ 10) * sc)"
proof -
  show "match_template_chroma t (scale c s)
         = Inr (k, c * (global_std s + 1 / 10 ^ 10) / (c * global_std s + 1 / 10 ^ 10) * sc)"
  proof (rule match_template_chroma_rescaled [OF assms(1,2) assms(1) chroma_scale [OF assms(2)]
        assms(3,4) rescale_factor_pos [OF assms(5)] _ assms(6)])
    fix j assume "j \<le> n - m"
    then have "j + m \<le> n" using assms(4) by simp
    then show "aggregate t (scale c s) j
        = c * (global_std s + 1 / 10 ^ 10) / (c * global_std s + 1 / 10 ^ 10) * aggregate t s j"
      by (rule aggregate_scale_search [OF assms(1,2) _ assms(5)])
  qed
  show "match_template_chroma (scale c t) s
         = Inr (k, c * (global_std t + 1 / 10 ^ 10) / (c * global_std t + 1 / 10 ^ 10) * sc)"
    by (rule match_template_chroma_rescaled [OF assms(1,2) chroma_scale [OF assms(1)] assms(2)
          assms(3,4) rescale_factor_pos [OF assms(5)] aggregate_scale_template [OF assms(1,5)]
          assms(6)])
qed

lemma two_tone_scaled_match:
  "match_template_chroma two_tone (scale (1 / 10 ^ 10) two_tone)
     = Inr (0, 1 / (2 * (1 + 1 / 10 ^ 10)))"
proof -
  have "match_template_chroma two_tone (scale (1 / 10 ^ 10) two_tone)
     = Inr (0, (1 / 10 ^ 10) * (global_std two_tone + 1 / 10 ^ 10)
                 / ((1 / 10 ^ 10) * global_std two_tone + 1 / 10 ^ 10)
                 * (1 / (1 + 1 / 10 ^ 10)\<^sup>2))"
    by (rule match_template_chroma_scaled(1) [OF chroma_two_tone chroma_two_tone _ _ _ two_tone_match])
      simp_all
  then show ?thesis by (simp add: two_tone_std power2_eq_square)
qed

text \<open>
  C6 (as amended). For a template of \<open>m\<close> frames, a search matrix of \<open>n \<ge> m\<close> frames
  and a constant \<open>c > 0\<close>: scaling the search matrix, or the template, by \<open>c\<close> leaves
  the offset returned unchanged, and multiplies the score by
  \<open>c (\<sigma> + \<epsilon>) / (c \<sigma> + \<epsilon>)\<close>, where \<open>\<sigma>\<close> is the standard deviation of the matrix that
  is scaled and \<open>\<epsilon>\<close> is \<open>1e-10\<close>.
\<close>

theorem match_template_chroma_scaling:
  assumes "chroma t m" and "chroma s n" and "0 < m" and "m \<le> n" and "0 < c"
  shows "\<exists>k sc. match_template_chroma t s = Inr (k, sc)
     \<and> match_template_chroma t (scale c s)
         = Inr (k, c * (np_std s + 1 / 10 ^ 10) / (c * np_std s + 1 / 10 ^ 10) * sc)
     \<and> match_template_chroma (scale c t) s
         = Inr (k, c * (np_std t + 1 / 10 ^ 10) / (c * np_std t + 1 / 10 ^ 10) * sc)"
proof -
  obtain k where k: "match_template_chroma t s = Inr (k, aggregate t s k)"
    using match_template_chroma_fits [OF assms(1-4)] by blast
  show ?thesis
    using k match_template_chroma_scaled [OF assms k]
    by (simp add: np_std_global [OF assms(1)] np_std_global [OF assms(2)])
qed

theorem match_template_chroma_scaling_witness:
  "match_template_chroma two_tone (scale 3 two_tone)
     = Inr (0, 3 * (1 + 1 / 10 ^ 10) / (3 + 1 / 10 ^ 10) * (1 / (1 + 1 / 10 ^ 10)\<^sup>2))
   \<and> match_template_chroma (scale 3 two_tone) two_tone
     = Inr (0, 3 * (1 + 1 / 10 ^ 10) / (3 + 1 / 10 ^ 10) * (1 / (1 + 1 / 10 ^ 10)\<^sup>2))"
proof -
  have std: "np_std two_tone = 1"
    using np_std_global [OF chroma_two_tone] two_tone_std by simp
  obtain k sc where r: "match_template_chroma two_tone two_tone = Inr (k, sc)"
    "match_template_chroma two_tone (scale 3 two_tone)
         = Inr (k, 3 * (np_std two_tone + 1 / 10 ^ 10) / (3 * np_std two_tone + 1 / 10 ^ 10) * sc)"
    "match_template_chroma (scale 3 two_tone) two_tone
         = Inr (k, 3 * (np_std two_tone + 1 / 10 ^ 10) / (3 * np_std two_tone + 1 / 10 ^ 10) * sc)"
    using match_template_chroma_scaling [OF chroma_two_tone chroma_two_tone, of 3] by auto
  have "k = 0" "sc = 1 / (1 + 1 / 10 ^ 10)\<^sup>2"
    using r(1) two_tone_match by simp_all
  then show ?thesis using r(2,3) std by simp
qed

text \<open>
  The claim as stated fails: the score is not invariant up to rounding. Scaling the
  search matrix \<^const>\<open>two_tone\<close> by \<open>1e-10\<close> takes the score of the exact match from
  above the default threshold \<open>0.50\<close> to below it; the factor is \<open>(1 + \<epsilon>) / 2\<close>.
\<close>

theorem match_template_chroma_scaling_changes_score:
  "match_template_chroma two_tone two_tone = Inr (0, 1 / (1 + 1 / 10 ^ 10)\<^sup>2)
   \<and> match_template_chroma two_tone (scale (1 / 10 ^ 10) two_tone)
       = Inr (0, 1 / (2 * (1 + 1 / 10 ^ 10)))
   \<and> (1 :: real) / (2 * (1 + 1 / 10 ^ 10)) < 1 / 2
   \<and> (1 :: real) / 2 \<le> 1 / (1 + 1 / 10 ^ 10)\<^sup>2"
  using two_tone_match two_tone_scaled_match by (simp add: power2_eq_square)

subsection \<open>Formatting and parsing timestamps\<close>

lemma is_digit_digit_char: "d < 10 \<Longrightarrow> is_digit (digit_char d)"
  by (simp add: is_digit_def digit_char_def)

lemma digit_val_digit_char: "d < 10 \<Longrightarrow> digit_val (digit_char d) = d"
  by (simp add: digit_val_def digit_char_def)

lemma is_digit_plain:
  assumes "is_digit c"
  shows "c \<noteq> CHR '':''" "c \<noteq> CHR ''_''" "c \<noteq> CHR ''-''" "c \<noteq> CHR ''+''" "\<not> is_space c"
  using assms by (auto simp: is_digit_def is_space_def)

lemma is_digit_zero: "is_digit (CHR ''0'')" "digit_val (CHR ''0'') = 0"
  by (simp_all add: is_digit_def digit_val_def)

lemma dec_digits: "list_all is_digit (dec n) \<and> dec n \<noteq> []"
proof (induction n rule: dec.induct)
  case (1 n)
  show ?case
  proof (cases "n < 10")
    case True
    then show ?thesis by (simp add: dec.simps [of n] is_digit_digit_char)
  next
    case False
    then show ?thesis using 1 by (simp add: dec.simps [of n] is_digit_digit_char)
  qed
qed

lemma digits_value_snoc:
  "c \<noteq> CHR ''_'' \<Longrightarrow> digits_value (xs @ [c]) = 10 * digits_value xs + digit_val c"
  by (simp add: digits_value_def)

lemma digits_value_dec: "digits_value (dec n) = n"
proof (induction n rule: dec.induct)
  case (1 n)
  show ?case
  proof (cases "n < 10")
    case True
    then show ?thesis
      by (simp add: dec.simps [of n] digits_value_def digit_val_digit_char
          is_digit_plain(2) [OF is_digit_digit_char])
  next
    case False
    have "digit_char (n mod 10) \<noteq> CHR ''_''"
      by (rule is_digit_plain(2) [OF is_digit_digit_char]) simp
    then show ?thesis
      using False 1 by (simp add: dec.simps [of n] digits_value_snoc digit_val_digit_char)
  qed
qed

lemma digits_value_zeros: "digits_value (replicate k (CHR ''0'') @ ds) = digits_value ds"
  by (induction k) (simp_all add: digits_value_def is_digit_zero)

lemma digits_wf_all:
  "list_all is_digit ds \<Longrightarrow> ds \<noteq> [] \<Longrightarrow> digits_wf ds"
proof (induction ds rule: digits_wf.induct)
  case 1
  then show ?case by simp
next
  case (2 c)
  then show ?case by simp
next
  case (3 c d cs)
  then show ?case using is_digit_plain(2) [of d] by simp
qed

lemma dropWhile_none: "list_all (\<lambda>c. \<not> P c) s \<Longrightarrow> dropWhile P s = s"
  by (cases s) simp_all

lemma strip_plain:
  assumes "list_all (\<lambda>c. \<not> is_space c) s"
  shows "strip s = s"
proof -
  have "list_all (\<lambda>c. \<not> is_space c) (rev s)" using assms by (simp add: list_all_iff)
  then show ?thesis using assms by (simp add: strip_def dropWhile_none)
qed

lemma py_int_of_str_digits:
  assumes "list_all is_digit ds" and "ds \<noteq> []"
  shows "py_int_of_str ds = Inr (int (digits_value ds))"
    and "py_int_of_str (CHR ''-'' # ds) = Inr (- int (digits_value ds))"
proof -
  have nosp: "list_all (\<lambda>c. \<not> is_space c) ds"
    using assms(1) is_digit_plain(5) by (auto simp: list_all_iff)
  have hd: "is_digit (hd ds)" using assms by (cases ds) simp_all
  show "py_int_of_str ds = Inr (int (digits_value ds))"
    using assms is_digit_plain(3,4) [OF hd]
    by (simp add: py_int_of_str_def strip_plain [OF nosp] digits_wf_all)
  have "list_all (\<lambda>c. \<not> is_space c) (CHR ''-'' # ds)"
    using nosp by (simp add: is_space_def)
  then show "py_int_of_str (CHR ''-'' # ds) = Inr (- int (digits_value ds))"
    using assms by (simp add: py_int_of_str_def strip_plain digits_wf_all)
qed

lemma zfill_digits:
  assumes "list_all is_digit ds" and "ds \<noteq> []"
  shows "list_all is_digit (zfill w ds)" and "zfill w ds \<noteq> []"
    and "digits_value (zfill w ds) = digits_value ds"
  using assms by (auto simp: zfill_def is_digit_zero digits_value_zeros list_all_iff)

lemma py_int_of_str_fmt: "py_int_of_str (fmt_02d i) = Inr i"
proof (cases "i < 0")
  case True
  then show ?thesis
    using py_int_of_str_digits(2) [OF zfill_digits(1,2) [of "dec (nat (- i))" 1]]
      zfill_digits(3) [of "dec (nat (- i))" 1] dec_digits [of "nat (- i)"]
    by (simp add: fmt_02d_def digits_value_dec)
next
  case False
  then show ?thesis
    using py_int_of_str_digits(1) [OF zfill_digits(1,2) [of "dec (nat i)" 2]]
      zfill_digits(3) [of "dec (nat i)" 2] dec_digits [of "nat i"]
    by (simp add: fmt_02d_def digits_value_dec)
qed

lemma fmt_no_colon: "CHR '':'' \<notin> set (fmt_02d i)"
proof -
  have "CHR '':'' \<notin> set (zfill w (dec n))" for w n
    using zfill_digits(1) [of "dec n" w] dec_digits [of n] is_digit_plain(1)
    by (auto simp: list_all_iff)
  then show ?thesis by (simp add: fmt_02d_def)
qed

lemma split_on_none: "c \<notin> set s \<Longrightarrow> split_on c s = [s]"
  by (induction s) auto

lemma split_on_append:
  "c \<notin> set a \<Longrightarrow> split_on c (a @ c # rest) = a # split_on c rest"
  by (induction a) auto

lemma seconds_recompose:
  "(n div 3600) * 3600 + ((n mod 3600) div 60) * 60 + n mod 60 = (n :: int)"
proof -
  have "n mod 60 = (n mod 3600) mod 60"
    by (simp add: mod_mod_cancel)
  then have "((n mod 3600) div 60) * 60 + n mod 60 = n mod 3600"
    by (simp only: div_mult_mod_eq)
  then have "(n div 3600) * 3600 + ((n mod 3600) div 60) * 60 + n mod 60
      = (n div 3600) * 3600 + n mod 3600"
    by (simp only: add.assoc)
  then show ?thesis by (simp only: div_mult_mod_eq)
qed

lemma split_timestamp:
  "split_on (CHR '':'') (seconds_to_timestamp x) =
     [fmt_02d (py_int_of_float x div 3600), fmt_02d ((py_int_of_float x mod 3600) div 60),
      fmt_02d (py_int_of_float x mod 60)]"
  by (simp add: seconds_to_timestamp_def Let_def split_on_append split_on_none fmt_no_colon)

lemma parse_seconds_to_timestamp:
  "parse_timestamp (seconds_to_timestamp x) = Inr (py_int_of_float x)"
  using seconds_recompose [of "py_int_of_float x"]
  by (simp add: parse_timestamp_def split_timestamp py_int_of_str_fmt)

lemma length_fmt_two:
  assumes "0 \<le> i" and "i < 100"
  shows "length (fmt_02d i) = 2"
proof -
  have n: "nat i < 100" using assms by simp
  have "length (dec (nat i)) = (if nat i < 10 then 1 else 2)"
  proof (cases "nat i < 10")
    case True
    then show ?thesis by (simp add: dec.simps [of "nat i"])
  next
    case False
    then have "nat i div 10 < 10" using n by simp
    then have "length (dec (nat i div 10)) = 1" by (simp add: dec.simps [of "nat i div 10"])
    then show ?thesis using False by (simp add: dec.simps [of "nat i"])
  qed
  then show ?thesis using assms by (simp add: fmt_02d_def zfill_def)
qed


lemma digit_char_eval:
  "digit_char 0 = CHR ''0''" "digit_char 1 = CHR ''1''" "digit_char (Suc 0) = CHR ''1''" "digit_char 2 = CHR ''2''"
  "digit_char 3 = CHR ''3''" "digit_char 4 = CHR ''4''" "digit_char 5 = CHR ''5''"
  "digit_char 6 = CHR ''6''" "digit_char 7 = CHR ''7''" "digit_char 8 = CHR ''8''"
  "digit_char 9 = CHR ''9''"
  by code_simp+

text \<open>
  C9. For every real \<open>s \<ge> 0\<close>, \<^const>\<open>seconds_to_timestamp\<close> gives three decimal
  fields separated by colons; the fields are the hours, minutes and seconds, read
  back by \<^verbatim>\<open>int\<close>; minutes and seconds are in \<open>[0, 60)\<close> and have two characters;
  and \<^const>\<open>parse_timestamp\<close> of the string is \<open>\<lfloor>s\<rfloor>\<close>.
\<close>

theorem timestamp_round_trip:
  assumes "0 \<le> s"
  shows "\<exists>h m sec.
       seconds_to_timestamp s = fmt_02d h @ '':'' @ fmt_02d m @ '':'' @ fmt_02d sec
     \<and> split_on (CHR '':'') (seconds_to_timestamp s) = [fmt_02d h, fmt_02d m, fmt_02d sec]
     \<and> py_int_of_str (fmt_02d h) = Inr h \<and> py_int_of_str (fmt_02d m) = Inr m
     \<and> py_int_of_str (fmt_02d sec) = Inr sec
     \<and> 0 \<le> h \<and> 0 \<le> m \<and> m < 60 \<and> 0 \<le> sec \<and> sec < 60
     \<and> length (fmt_02d m) = 2 \<and> length (fmt_02d sec) = 2
     \<and> parse_timestamp (seconds_to_timestamp s) = Inr \<lfloor>s\<rfloor>"
proof -
  let ?n = "py_int_of_float s"
  have n: "?n = \<lfloor>s\<rfloor>" "0 \<le> ?n" using assms by (simp_all add: py_int_of_float_def)
  have m: "0 \<le> (?n mod 3600) div 60" "(?n mod 3600) div 60 < 60"
    by (simp_all add: pos_imp_zdiv_nonneg_iff div_less_iff_less_mult)
  have sec: "0 \<le> ?n mod 60" "?n mod 60 < 60" by simp_all
  have h: "0 \<le> ?n div 3600" using n(2) by (simp add: pos_imp_zdiv_nonneg_iff)
  have fmt: "seconds_to_timestamp s
      = fmt_02d (?n div 3600) @ '':'' @ fmt_02d ((?n mod 3600) div 60) @ '':'' @ fmt_02d (?n mod 60)"
    by (simp add: seconds_to_timestamp_def)
  have parse: "parse_timestamp (seconds_to_timestamp s) = Inr \<lfloor>s\<rfloor>"
    using parse_seconds_to_timestamp [of s] n(1) by simp
  have lens: "length (fmt_02d ((?n mod 3600) div 60)) = 2" "length (fmt_02d (?n mod 60)) = 2"
    using m sec by (simp_all add: length_fmt_two)
  have "seconds_to_timestamp s
       = fmt_02d (?n div 3600) @ '':'' @ fmt_02d ((?n mod 3600) div 60) @ '':'' @ fmt_02d (?n mod 60)
     \<and> split_on (CHR '':'') (seconds_to_timestamp s)
       = [fmt_02d (?n div 3600), fmt_02d ((?n mod 3600) div 60), fmt_02d (?n mod 60)]
     \<and> py_int_of_str (fmt_02d (?n div 3600)) = Inr (?n div 3600)
     \<and> py_int_of_str (fmt_02d ((?n mod 3600) div 60)) = Inr ((?n mod 3600) div 60)
     \<and> py_int_of_str (fmt_02d (?n mod 60)) = Inr (?n mod 60)
     \<and> 0 \<le> ?n div 3600 \<and> 0 \<le> (?n mod 3600) div 60 \<and> (?n mod 3600) div 60 < 60
     \<and> 0 \<le> ?n mod 60 \<and> ?n mod 60 < 60
     \<and> length (fmt_02d ((?n mod 3600) div 60)) = 2 \<and> length (fmt_02d (?n mod 60)) = 2
     \<and> parse_timestamp (seconds_to_timestamp s) = Inr \<lfloor>s\<rfloor>"
    using fmt split_timestamp [of s] parse m sec h lens
    by (simp only: py_int_of_str_fmt simp_thms)
  then show ?thesis by blast
qed

theorem timestamp_round_trip_witness:
  "seconds_to_timestamp (7451 / 2) = ''01:02:05'' \<and> parse_timestamp ''01:02:05'' = Inr 3725"
proof -
  have f: "seconds_to_timestamp (7451 / 2) = ''01:02:05''"
    by (simp add: seconds_to_timestamp_def py_int_of_float_def fmt_02d_def zfill_def dec.simps
        digit_char_eval)
  have "parse_timestamp (seconds_to_timestamp (7451 / 2)) = Inr \<lfloor>7451 / 2 :: real\<rfloor>"
    using timestamp_round_trip [of "7451 / 2"] by auto
  then show ?thesis using f by simp
qed

subsection \<open>The detection pipeline\<close>

text \<open>A run in which every stage succeeds ends in the decision of lines 202 to 225.\<close>

lemma find_amen_matched:
  assumes "path_exists w (path_join td ''amen_chroma.npy'')"
    and "np_load w (path_join td ''amen_chroma.npy'') = Inr t"
    and "get_video_duration w v = Inr d"
    and "0 < min (real_of_int (sd * 60)) (d - real_of_int (so * 60))"
    and "run_ffmpeg w v (real_of_int (so * 60))
           (min (real_of_int (sd * 60)) (d - real_of_int (so * 60))) = Inr 0"
    and "librosa_chroma w v (real_of_int (so * 60))
           (min (real_of_int (sd * 60)) (d - real_of_int (so * 60))) = Inr s"
    and "match_template_chroma t s = Inr (k, sc)"
  shows "find_amen w v so sd td th =
     ([LoadTemplate (path_join td ''amen_chroma.npy''), ProbeDuration v,
       ExtractAudio v (real_of_int (so * 60))
         (min (real_of_int (sd * 60)) (d - real_of_int (so * 60))),
       ComputeChroma, MatchTemplate, RemoveTemp],
      Inr (localize (so * 60) k sc 512 22050 (shape1 t) th))"
proof -
  have sr: "search_region w v t (so * 60)
       (min (real_of_int (sd * 60)) (d - real_of_int (so * 60))) th =
     ([ExtractAudio v (real_of_int (so * 60))
         (min (real_of_int (sd * 60)) (d - real_of_int (so * 60))),
       ComputeChroma, MatchTemplate],
      Inr (localize (so * 60) k sc 512 22050 (shape1 t) th))"
    using assms(5,6,7) by (simp add: search_region_def extract_audio_def compute_chroma_def)
  show ?thesis
    unfolding find_amen_def Let_def using assms(1,2,3,4) sr
    by (simp add: not_le [symmetric])
qed


lemma demo_duration: "get_video_duration (demo_world t s) v = Inr 7200"
  by (simp add: get_video_duration_def demo_world_def)

lemma demo_matched:
  assumes "match_template_chroma t s = Inr (k, sc)" and "so * 60 < 7200" and "0 < sd"
  shows "find_amen (demo_world t s) v so sd td th =
     ([LoadTemplate (path_join td ''amen_chroma.npy''), ProbeDuration v,
       ExtractAudio v (real_of_int (so * 60))
         (min (real_of_int (sd * 60)) (7200 - real_of_int (so * 60))),
       ComputeChroma, MatchTemplate, RemoveTemp],
      Inr (localize (so * 60) k sc 512 22050 (shape1 t) th))"
proof (rule find_amen_matched [OF _ _ demo_duration _ _ _ assms(1)])
  show "0 < min (real_of_int (sd * 60)) (7200 - real_of_int (so * 60))"
    using assms(2,3) by (simp add: min_def)
qed (simp_all add: demo_world_def)

text \<open>
  C3. When the pipeline reaches the matcher and the matcher returns the score \<open>sc\<close>:
  if \<open>sc\<close> is at least the threshold (equality included) the result is a detection
  whose confidence is \<open>sc\<close>; if \<open>sc\<close> is below the threshold the result is a
  non-detection that carries \<open>sc\<close> as \<^verbatim>\<open>best_score\<close> and, as \<^verbatim>\<open>best_time\<close>, the
  timestamp of the computed end time. (\<^const>\<open>main\<close> passes the default threshold
  \<open>0.50\<close>.)
\<close>

theorem threshold_decision:
  assumes "path_exists w (path_join td ''amen_chroma.npy'')"
    and "np_load w (path_join td ''amen_chroma.npy'') = Inr t"
    and "get_video_duration w v = Inr d"
    and "0 < min (real_of_int (sd * 60)) (d - real_of_int (so * 60))"
    and "run_ffmpeg w v (real_of_int (so * 60))
           (min (real_of_int (sd * 60)) (d - real_of_int (so * 60))) = Inr 0"
    and "librosa_chroma w v (real_of_int (so * 60))
           (min (real_of_int (sd * 60)) (d - real_of_int (so * 60))) = Inr s"
    and "match_template_chroma t s = Inr (k, sc)"
  shows "(th \<le> sc \<longrightarrow>
            (\<exists>a a_sec e e_sec. snd (find_amen w v so sd td th) = Inr (Detected a a_sec e e_sec sc)))
       \<and> (sc < th \<longrightarrow>
            snd (find_amen w v so sd td th) =
              Inr (NotDetected (BelowThreshold sc th) (Some sc)
                     (Some (seconds_to_timestamp
                        (real_of_int (so * 60) + real k * 512 / 22050
                           + real (shape1 t) * 512 / 22050)))))"
  unfolding find_amen_matched [OF assms] by (simp add: localize_def Let_def add.assoc)

theorem threshold_decision_witness:
  "snd (find_amen (demo_world two_tone two_tone) ''service.mp4'' 20 90 ''templates''
          (1 / (1 + 1 / 10 ^ 10)\<^sup>2))
     = Inr (Detected ''00:20:00'' 1200 ''00:20:00'' 1200 (1 / (1 + 1 / 10 ^ 10)\<^sup>2))
   \<and> snd (find_amen (demo_world two_tone two_tone) ''service.mp4'' 20 90 ''templates'' 1)
     = Inr (NotDetected (BelowThreshold (1 / (1 + 1 / 10 ^ 10)\<^sup>2) 1)
              (Some (1 / (1 + 1 / 10 ^ 10)\<^sup>2)) (Some ''00:20:00''))"
proof -
  let ?w = "demo_world two_tone two_tone"
  have run: "find_amen ?w ''service.mp4'' 20 90 ''templates'' th =
     ([LoadTemplate (path_join ''templates'' ''amen_chroma.npy''), ProbeDuration ''service.mp4'',
       ExtractAudio ''service.mp4'' (real_of_int (20 * 60))
         (min (real_of_int (90 * 60)) (7200 - real_of_int (20 * 60))),
       ComputeChroma, MatchTemplate, RemoveTemp],
      Inr (localize (20 * 60) 0 (1 / (1 + 1 / 10 ^ 10)\<^sup>2) 512 22050 (shape1 two_tone) th))" for th
    by (rule demo_matched [OF two_tone_match]) simp_all
  have pre: "path_exists ?w (path_join ''templates'' ''amen_chroma.npy'')"
    "np_load ?w (path_join ''templates'' ''amen_chroma.npy'') = Inr two_tone"
    "0 < min (real_of_int (90 * 60)) (7200 - real_of_int (20 * 60))"
    "run_ffmpeg ?w ''service.mp4'' (real_of_int (20 * 60))
           (min (real_of_int (90 * 60)) (7200 - real_of_int (20 * 60))) = Inr 0"
    "librosa_chroma ?w ''service.mp4'' (real_of_int (20 * 60))
           (min (real_of_int (90 * 60)) (7200 - real_of_int (20 * 60))) = Inr two_tone"
    by (simp_all add: demo_world_def)
  note th = threshold_decision [OF pre(1,2) demo_duration pre(3,4,5) two_tone_match]
  have lt: "1 / (1 + 1 / 10 ^ 10)\<^sup>2 < (1 :: real)" by (simp add: power2_eq_square)
  have ts: "seconds_to_timestamp (1200 + 512 / 22050) = ''00:20:00''"
    "seconds_to_timestamp 1200 = ''00:20:00''"
    "py_int_of_float (1200 + 512 / 22050) = 1200" "py_int_of_float 1200 = 1200"
    by (simp_all add: seconds_to_timestamp_def py_int_of_float_def fmt_02d_def zfill_def
        dec.simps digit_char_eval)
  have a: "snd (find_amen ?w ''service.mp4'' 20 90 ''templates'' (1 / (1 + 1 / 10 ^ 10)\<^sup>2))
     = Inr (Detected ''00:20:00'' 1200 ''00:20:00'' 1200 (1 / (1 + 1 / 10 ^ 10)\<^sup>2))"
    using th [of "1 / (1 + 1 / 10 ^ 10)\<^sup>2"] ts
    by (simp add: run localize_def Let_def chroma_shape1 [OF chroma_two_tone])
  have b: "snd (find_amen ?w ''service.mp4'' 20 90 ''templates'' 1)
     = Inr (NotDetected (BelowThreshold (1 / (1 + 1 / 10 ^ 10)\<^sup>2) 1)
              (Some (1 / (1 + 1 / 10 ^ 10)\<^sup>2)) (Some ''00:20:00''))"
    using th [of 1] lt ts by (simp add: chroma_shape1 [OF chroma_two_tone])
  show ?thesis using a b by simp
qed

subsection \<open>Timestamps of a match\<close>









subsection \<open>The search window\<close>




subsection \<open>Failures that leave the program as exceptions\<close>

text \<open>
  Failures that are turned into a result: a missing template, a failing duration
  probe and a failing extraction end \<^const>\<open>find_amen\<close> with a result, and no later
  stage is run; missing arguments and a missing video do the same in \<^const>\<open>main\<close>.
\<close>

lemma find_amen_handled_failures:
  "\<not> path_exists w (path_join td ''amen_chroma.npy'') \<Longrightarrow>
     find_amen w v so sd td th =
       ([], Inr (NotDetected (TemplateNotFound (path_join td ''amen_chroma.npy'')) None None))"
  "path_exists w (path_join td ''amen_chroma.npy'') \<Longrightarrow>
   np_load w (path_join td ''amen_chroma.npy'') = Inr t \<Longrightarrow>
   get_video_duration w v = Inl e \<Longrightarrow>
     find_amen w v so sd td th =
       ([LoadTemplate (path_join td ''amen_chroma.npy''), ProbeDuration v],
        Inr (NotDetected (DurationFailed e) None None))"
  "path_exists w (path_join td ''amen_chroma.npy'') \<Longrightarrow>
   np_load w (path_join td ''amen_chroma.npy'') = Inr t \<Longrightarrow>
   get_video_duration w v = Inr d \<Longrightarrow>
   0 < min (real_of_int (sd * 60)) (d - real_of_int (so * 60)) \<Longrightarrow>
   run_ffmpeg w v (real_of_int (so * 60))
     (min (real_of_int (sd * 60)) (d - real_of_int (so * 60))) = Inr rc \<Longrightarrow>
   rc \<noteq> 0 \<Longrightarrow>
     find_amen w v so sd td th =
       ([LoadTemplate (path_join td ''amen_chroma.npy''), ProbeDuration v,
         ExtractAudio v (real_of_int (so * 60))
           (min (real_of_int (sd * 60)) (d - real_of_int (so * 60))),
         RemoveTemp],
        Inr (NotDetected ExtractFailed None None))"
  by (simp_all add: find_amen_def Let_def search_region_def extract_audio_def
      not_le [symmetric])

lemma main_handled_failures:
  "main w [prog] = ([PrintResult (NotDetected Usage None None)], [], Inr 1)"
  "\<not> path_exists w video \<Longrightarrow> check_dependencies w = None \<Longrightarrow>
     video \<noteq> ''-h'' \<Longrightarrow> video \<noteq> ''--help'' \<Longrightarrow>
     main w [prog, video] =
       ([PrintResult (NotDetected (VideoNotFound video) None None)], [], Inr 1)"
  by (simp_all add: main_def)

text \<open>
  C5. Three runs of \<^const>\<open>main\<close> in which a failure is not turned into a result: a
  template file that \<^verbatim>\<open>np.load\<close> cannot read, a template of more frames than the
  search matrix, and a start offset that is not an integer. In each, nothing is printed
  and the program ends with a \<^verbatim>\<open>ValueError\<close> that nothing catches.
\<close>

theorem main_uncaught_failures:
  "main corrupt_world [''detect_amen.py'', ''service.mp4''] =
     ([], [LoadTemplate ''config/audio_templates/amen_chroma.npy''],
      Inl (ValueError ''Cannot load file containing pickled data''))
   \<and> main (demo_world triad_twice triad) [''detect_amen.py'', ''service.mp4''] =
     ([], [LoadTemplate ''config/audio_templates/amen_chroma.npy'', ProbeDuration ''service.mp4'',
           ExtractAudio ''service.mp4'' 1200 5400, ComputeChroma, MatchTemplate, RemoveTemp],
      Inl (ValueError ''operands could not be broadcast together''))
   \<and> main (demo_world two_tone two_tone) [''detect_amen.py'', ''service.mp4'', ''twenty''] =
     ([], [], Inl (ValueError ''invalid literal for int() with base 10: twenty''))"
proof -
  have long: "match_template_chroma triad_twice triad
      = Inl (ValueError ''operands could not be broadcast together'')"
    using match_template_chroma_short [OF chroma_triad(2) chroma_triad(1)] by simp
  have a: "main corrupt_world [''detect_amen.py'', ''service.mp4''] =
     ([], [LoadTemplate ''config/audio_templates/amen_chroma.npy''],
      Inl (ValueError ''Cannot load file containing pickled data''))"
    by (simp add: main_def check_dependencies_def corrupt_world_def demo_world_def
        find_amen_def path_join_def)
  have b: "main (demo_world triad_twice triad) [''detect_amen.py'', ''service.mp4''] =
     ([], [LoadTemplate ''config/audio_templates/amen_chroma.npy'', ProbeDuration ''service.mp4'',
           ExtractAudio ''service.mp4'' 1200 5400, ComputeChroma, MatchTemplate, RemoveTemp],
      Inl (ValueError ''operands could not be broadcast together''))"
    using long
    by (simp add: main_def check_dependencies_def demo_world_def find_amen_def path_join_def
        get_video_duration_def search_region_def extract_audio_def compute_chroma_def Let_def)
  have c: "main (demo_world two_tone two_tone) [''detect_amen.py'', ''service.mp4'', ''twenty''] =
     ([], [], Inl (ValueError ''invalid literal for int() with base 10: twenty''))"
    by (simp add: main_def check_dependencies_def demo_world_def py_int_of_str_def strip_def
        is_space_def is_digit_def)
  show ?thesis using a b c by simp
qed

end
